theory Spec2Isabelle
  imports Main "HOL-Library.AList" "HOL-Library.Sublist"
begin

section \<open>ArchiveFreezer: the tag propagation walk of main.py\<close>

text \<open>
  The program walks a directory tree that mirrors an object store, tags every object
  below a directory holding a directive file (a name starting with \<open>.freeze.\<close>), and
  keeps a state record (\<open>.frozen\<close>, a JSON document) in every directory it has
  processed. This theory embeds \<open>parse_freezefile\<close>, \<open>apply_tag\<close> and the
  driver under \<open>__main__\<close>, with the file system, the tagging service and the
  notification channel as explicit state.
\<close>

subsection \<open>Constants of the module\<close>

type_synonym tags = "(string \<times> string) list"
  \<comment> \<open>a Python \<open>Dict[str, str]\<close>: keys in insertion order, each key once\<close>

definition FREEZEFILE_PREFIX :: string where
  "FREEZEFILE_PREFIX = ''.freeze.''"

definition FROZENFILE :: string where
  "FROZENFILE = ''.frozen''"

definition FREEZEFILE_TAGS :: tags where
  "FREEZEFILE_TAGS = [(''storage-class'', ''infrequent-access'')]"

subsection \<open>JSON values and the schema of the state record\<close>

text \<open>
  What \<open>json.load\<close> returns. A JSON object is a Python dict: an association list
  read with \<open>map_of\<close> and written with \<open>AList.update\<close>. Numbers play no part in
  the walk and are kept as integers.
\<close>

datatype json =
  JNull | JBool bool | JNum int | JStr string | JArr "json list" | JObj "(string \<times> json) list"

type_synonym dict = "(string \<times> json) list"

text \<open>
  The keywords of JSON Schema that \<open>CONFIG_SCHEMA\<close> uses: \<open>type\<close>, \<open>properties\<close>,
  \<open>required\<close> and \<open>items\<close>. As in \<open>jsonschema.validate\<close>, \<open>properties\<close> and
  \<open>required\<close> constrain objects only and \<open>items\<close> constrains arrays only, and a
  property that is absent is not checked by \<open>properties\<close>.
\<close>

datatype jtype = TObject | TArray | TString

datatype schema =
  Schema (s_type: "jtype option") (s_properties: "(string \<times> schema) list")
         (s_required: "string list") (s_items: "schema option")

fun has_type :: "jtype \<Rightarrow> json \<Rightarrow> bool" where
  "has_type TObject (JObj kv) = True"
| "has_type TArray (JArr xs) = True"
| "has_type TString (JStr s) = True"
| "has_type t j = False"

fun validate :: "schema \<Rightarrow> json \<Rightarrow> bool" where
  "validate (Schema ty props req items) j =
     ((case ty of None \<Rightarrow> True | Some t \<Rightarrow> has_type t j) \<and>
      (case j of
         JObj kv \<Rightarrow>
           list_all (\<lambda>(k, s). case map_of kv k of None \<Rightarrow> True | Some v \<Rightarrow> validate s v) props \<and>
           list_all (\<lambda>k. map_of kv k \<noteq> None) req
       | JArr xs \<Rightarrow> (case items of None \<Rightarrow> True | Some s \<Rightarrow> list_all (validate s) xs)
       | _ \<Rightarrow> True))"

definition CONFIG_SCHEMA :: schema where
  "CONFIG_SCHEMA =
     Schema (Some TObject)
       [(''rule-at'', Schema (Some TObject) [] [] None),
        (''freezefile-tags'', Schema (Some TObject) [] [] None),
        (''applied-tags'', Schema (Some TObject) [] [] None),
        (''affected-files'', Schema (Some TArray) [] [] (Some (Schema (Some TString) [] [] None)))]
       [''rule-at'', ''applied-tags'', ''affected-files'', ''freezefile-tags'']
       None"

definition BASE_CONFIG :: dict where
  "BASE_CONFIG =
     [(''rule-at'', JStr ''''), (''applied-tags'', JObj []),
      (''affected-files'', JArr []), (''freezefile-tags'', JObj [])]"

subsection \<open>parse_freezefile\<close>

datatype error = IndexError | OSError

text \<open>Python's \<open>str.split(sep)\<close> for a one-character separator: never empty.\<close>

fun py_split :: "char \<Rightarrow> string \<Rightarrow> string list" where
  "py_split c [] = [[]]"
| "py_split c (x # xs) =
     (if x = c then [] # py_split c xs
      else (case py_split c xs of y # ys \<Rightarrow> (x # y) # ys | [] \<Rightarrow> [[x]]))"

text \<open>
  The dict comprehension \<open>{x[0]: x[1] for x in key_values}\<close>: the entries are
  stored in order, a repeated key keeps its place and takes the later value, and
  \<open>x[1]\<close> raises IndexError when the segment had no \<open>=\<close>.
\<close>

fun dict_of_pairs :: "string list list \<Rightarrow> tags \<Rightarrow> error + tags" where
  "dict_of_pairs [] d = Inr d"
| "dict_of_pairs (x # xs) d =
     (case x of
        k # v # _ \<Rightarrow> dict_of_pairs xs (AList.update k v d)
      | _ \<Rightarrow> Inl IndexError)"

definition parse_freezefile :: "string \<Rightarrow> error + tags" where
  "parse_freezefile freezefile =
     (let key_values =
        map (py_split CHR ''='') (py_split CHR '';'' (drop (length FREEZEFILE_PREFIX) freezefile))
      in dict_of_pairs key_values [])"

subsection \<open>The world outside the program\<close>

text \<open>
  The state record of a directory is the file \<open>.frozen\<close> in it, as a reader finds it:
  missing, present but not readable as JSON (\<open>open\<close> for reading or \<open>json.load\<close>
  raises), or holding a JSON value.
\<close>

datatype filedata = NoFile | Garbled | Json json

text \<open>
  The world is the file system and the trace of the remote calls.
  \<^item> \<open>listable w p\<close>: \<open>os.listdir(p)\<close> returns, that is \<open>p\<close> is a directory that can be
    read; otherwise it raises.
  \<^item> \<open>entries w p\<close>: what the directory \<open>p\<close> holds apart from its state record, each name
    with the answer of \<open>os.path.isdir\<close>.
  \<^item> \<open>statefile w p\<close>: the content of \<open>p/.frozen\<close>.
  \<^item> \<open>locked w p\<close>: \<open>open(p/.frozen, 'wt')\<close> raises (the name is a directory, or the
    file or its directory cannot be written).
  \<^item> \<open>resolve w p\<close>: the string of \<open>Path(p).resolve()\<close>, which is \<open>p\<close> itself where no
    symbolic link is involved.
  \<^item> \<open>calls w\<close>: the \<open>put_object_tagging\<close> calls made so far, each with the file it was
    made for, the key and the tag set sent.
  \<^item> \<open>sent w\<close>: the notification texts handed to the Telegram bot.
\<close>

record world =
  listable :: "string \<Rightarrow> bool"
  entries :: "string \<Rightarrow> (string \<times> bool) list"
  statefile :: "string \<Rightarrow> filedata"
  locked :: "string \<Rightarrow> bool"
  resolve :: "string \<Rightarrow> string"
  calls :: "(string \<times> string \<times> tags) list"
  sent :: "string list"

text \<open>
  The configuration read from the environment: the mount path, and how the tagging
  service answers a call (\<open>True\<close>: it returns, \<open>False\<close>: it raises).
\<close>

record environ =
  S3_MOUNT_PATH :: string
  put_object_tagging :: "string \<Rightarrow> tags \<Rightarrow> bool"

text \<open>What \<open>os.listdir(p)\<close> returns when it returns (\<open>listable w p\<close>).\<close>

definition listdir :: "world \<Rightarrow> string \<Rightarrow> (string \<times> bool) list" where
  "listdir w p =
     entries w p @ (if statefile w p = NoFile then [] else [(FROZENFILE, False)])"

text \<open>
  \<open>Path(p).glob('.freeze.*')\<close>, as names: pathlib yields nothing, and raises nothing, for
  a directory it cannot list.
\<close>

definition glob_freezefiles :: "world \<Rightarrow> string \<Rightarrow> string list" where
  "glob_freezefiles w p =
     (if listable w p then filter (prefix FREEZEFILE_PREFIX) (map fst (listdir w p)) else [])"

text \<open>\<open>os.path.join\<close> of a directory and a name.\<close>

definition path_join :: "string \<Rightarrow> string \<Rightarrow> string" where
  "path_join a b =
     (if prefix ''/'' b then b
      else if a = [] \<or> suffix ''/'' a then a @ b
      else a @ ''/'' @ b)"

text \<open>\<open>s.replace(old, '')\<close>: every occurrence of \<open>old\<close>, left to right, is dropped.\<close>

function py_remove_all :: "string \<Rightarrow> string \<Rightarrow> string" where
  "py_remove_all old [] = []"
| "py_remove_all old (c # cs) =
     (if old \<noteq> [] \<and> prefix old (c # cs)
      then py_remove_all old (drop (length old) (c # cs))
      else c # py_remove_all old cs)"
  by pat_completeness auto
termination
  by (relation "measure (\<lambda>(old, s). length s)") auto

text \<open>
  \<open>os.remove\<close> of a name in a directory: it raises when the name is not there or names
  a directory.
\<close>

definition os_remove :: "world \<Rightarrow> string \<Rightarrow> string \<Rightarrow> world option" where
  "os_remove w p name =
     (if (name, False) \<in> set (entries w p)
      then Some (w\<lparr>entries := (entries w)(p := remove1 (name, False) (entries w p))\<rparr>)
      else None)"

subsection \<open>The state record as the walk reads it\<close>

text \<open>
  The \<open>try\<close> block of \<open>apply_tag\<close>: the record is used only when the file opens,
  parses and passes \<open>jsonschema.validate\<close>; every exception ends in the \<open>except\<close>
  branch (\<open>None\<close> here).
\<close>

definition load_frozen :: "filedata \<Rightarrow> dict option" where
  "load_frozen f =
     (case f of
        Json (JObj kv) \<Rightarrow> if validate CONFIG_SCHEMA (JObj kv) then Some kv else None
      | _ \<Rightarrow> None)"

text \<open>\<open>d[k]\<close> for a key the dict always has (after validation, or in \<open>BASE_CONFIG\<close>).\<close>

definition dict_get :: "dict \<Rightarrow> string \<Rightarrow> json" where
  "dict_get d k = (case map_of d k of Some v \<Rightarrow> v | None \<Rightarrow> JNull)"

definition json_of_tags :: "tags \<Rightarrow> json" where
  "json_of_tags t = JObj (map (\<lambda>(k, v). (k, JStr v)) t)"

text \<open>
  Python's \<open>==\<close> between a \<open>Dict[str, str]\<close> and a loaded JSON value, and between two
  such dicts: equal as mappings, whatever the order of the keys.
\<close>

definition tags_eq_json :: "tags \<Rightarrow> json \<Rightarrow> bool" where
  "tags_eq_json t j =
     (case j of
        JObj kv \<Rightarrow>
          list_all (\<lambda>k. map_of kv k = map_option JStr (map_of t k)) (map fst t @ map fst kv)
      | _ \<Rightarrow> False)"

definition tags_eq :: "tags \<Rightarrow> tags \<Rightarrow> bool" where
  "tags_eq a b = list_all (\<lambda>k. map_of a k = map_of b k) (map fst a @ map fst b)"

text \<open>\<open>file in frozen['affected-files']\<close> and \<open>frozen['affected-files'].append(file)\<close>.\<close>

definition py_in :: "string \<Rightarrow> json \<Rightarrow> bool" where
  "py_in file j = (case j of JArr xs \<Rightarrow> JStr file \<in> set xs | _ \<Rightarrow> False)"

definition py_append :: "json \<Rightarrow> string \<Rightarrow> json" where
  "py_append j file = (case j of JArr xs \<Rightarrow> JArr (xs @ [JStr file]) | _ \<Rightarrow> j)"

subsection \<open>apply_tag\<close>

text \<open>
  The local variables of one invocation. \<open>directories\<close> is the work stack; its head is
  the end of the Python list, where \<open>pop\<close> takes and \<open>append\<close> adds.
\<close>

record locals =
  directories :: "string list"
  processed_files :: "string list"
  failed_files :: "string list"
  state :: bool

definition init_locals :: "string \<Rightarrow> locals" where
  "init_locals target_path =
     \<lparr>directories = [target_path], processed_files = [], failed_files = [], state = True\<rparr>"

datatype 'a outcome = Returned 'a | Raised error | OutOfFuel

type_synonym run_result = "bool \<times> string list \<times> string list"

text \<open>The body of the loop over \<open>os.listdir(path)\<close>, for one entry.\<close>

definition visit_entry ::
  "environ \<Rightarrow> string \<Rightarrow> tags \<Rightarrow> string \<times> bool \<Rightarrow> dict \<times> locals \<times> world \<Rightarrow> dict \<times> locals \<times> world"
where
  "visit_entry cfg path tags e s =
     (case e of (file, isdir) \<Rightarrow>
      case s of (frozen, L, w) \<Rightarrow>
        if prefix ''.'' file then s
        else
          let file_abs_path = resolve w (path_join path file) in
          if isdir then (frozen, L\<lparr>directories := file_abs_path # directories L\<rparr>, w)
          else
            let marker = (prefix FREEZEFILE_PREFIX file \<or> file = FROZENFILE);
                using_tag = (if marker then FREEZEFILE_TAGS else tags);
                old_tag = (if marker then dict_get frozen ''freezefile-tags''
                           else dict_get frozen ''applied-tags'')
            in
            if tags_eq_json using_tag old_tag \<and> py_in file (dict_get frozen ''affected-files'')
            then s
            else
              let file_s3_key = py_remove_all (S3_MOUNT_PATH cfg @ ''/'') file_abs_path;
                  w' = w\<lparr>calls := calls w @ [(file_abs_path, file_s3_key, tags)]\<rparr>
              in
              if put_object_tagging cfg file_s3_key tags
              then
                ((if tags_eq using_tag tags
                  then AList.update ''affected-files''
                         (py_append (dict_get frozen ''affected-files'') file) frozen
                  else frozen),
                 L\<lparr>processed_files := processed_files L @ [file_abs_path]\<rparr>, w')
              else
                (frozen, L\<lparr>failed_files := failed_files L @ [file_abs_path], state := False\<rparr>, w'))"

text \<open>
  The \<open>with open(..., 'wt')\<close> block that ends the processing of a directory. It is
  outside any \<open>try\<close>: when the file cannot be opened for writing, the exception leaves
  \<open>apply_tag\<close> (\<open>None\<close> here).
\<close>

definition write_frozen :: "string \<Rightarrow> string \<Rightarrow> tags \<Rightarrow> dict \<Rightarrow> world \<Rightarrow> world option" where
  "write_frozen path rule_path tags frozen w =
     (if locked w path then None
      else Some (w\<lparr>statefile := (statefile w)(path := Json (JObj
         (AList.update ''freezefile-tags'' (json_of_tags FREEZEFILE_TAGS)
           (AList.update ''applied-tags'' (json_of_tags tags)
             (AList.update ''rule-at'' (JStr rule_path) frozen)))))\<rparr>))"

text \<open>
  What the body of the loop does with the directory just popped: it returns
  \<open>True, [], []\<close> at a record of another rule (\<open>Conflict\<close>), it raises from
  \<open>os.listdir\<close> or from the write of the record (\<open>Broken\<close>, with the world as the
  exception leaves it), or it gets to the end of the iteration (\<open>Processed\<close>).
\<close>

datatype dir_outcome = Conflict | Broken world | Processed locals world

text \<open>The \<open>for\<close> loop over \<open>os.listdir(path)\<close> and the write of the record.\<close>

definition scan_dir ::
  "environ \<Rightarrow> string \<Rightarrow> string \<Rightarrow> tags \<Rightarrow> dict \<Rightarrow> locals \<Rightarrow> world \<Rightarrow> dir_outcome"
where
  "scan_dir cfg path rule_path tags frozen L w =
     (if \<not> listable w path then Broken w
      else
        (case fold (visit_entry cfg path tags) (listdir w path) (frozen, L, w) of
           (frozen', L', w') \<Rightarrow>
             (case write_frozen path rule_path tags frozen' w' of
                None \<Rightarrow> Broken w'
              | Some w'' \<Rightarrow> Processed L' w'')))"

text \<open>From \<open>try\<close> to the write of the record.\<close>

definition process_dir ::
  "environ \<Rightarrow> string \<Rightarrow> string \<Rightarrow> tags \<Rightarrow> locals \<Rightarrow> world \<Rightarrow> dir_outcome"
where
  "process_dir cfg path rule_path tags L w =
     (case load_frozen (statefile w path) of
        None \<Rightarrow>
          scan_dir cfg path rule_path tags
            (AList.update ''affected-files'' (JArr []) BASE_CONFIG) (L\<lparr>state := False\<rparr>) w
      | Some frozen \<Rightarrow>
          if dict_get frozen ''rule-at'' \<noteq> JStr rule_path then Conflict
          else scan_dir cfg path rule_path tags frozen L w)"

text \<open>
  The \<open>while True\<close> loop. Each iteration and each nested invocation uses one unit of
  fuel; the world is returned with every outcome, so that what was done before an
  exception or before the fuel ran out stays visible.
\<close>

fun walk ::
  "environ \<Rightarrow> nat \<Rightarrow> string \<Rightarrow> string \<Rightarrow> tags \<Rightarrow> locals \<Rightarrow> world \<Rightarrow> run_result outcome \<times> world"
where
  "walk cfg 0 target_path rule_path tags L w = (OutOfFuel, w)"
| "walk cfg (Suc n) target_path rule_path tags L w =
     (case directories L of
        [] \<Rightarrow> (Returned (state L, processed_files L, failed_files L), w)
      | path # rest \<Rightarrow>
          (case (if path \<noteq> target_path then glob_freezefiles w path else []) of
             freezefile # _ \<Rightarrow>
               (case parse_freezefile freezefile of
                  Inl e \<Rightarrow> (Raised e, w)
                | Inr parsed_tag \<Rightarrow>
                    (case walk cfg n path rule_path parsed_tag (init_locals path) w of
                       (Returned ret, w1) \<Rightarrow>
                         (case os_remove w1 path freezefile of
                            None \<Rightarrow> (Raised OSError, w1)
                          | Some w2 \<Rightarrow>
                              walk cfg n target_path rule_path tags
                                (L\<lparr>directories := rest,
                                   processed_files := processed_files L @ fst (snd ret),
                                   failed_files := failed_files L @ snd (snd ret),
                                   state := (state L \<and> fst ret)\<rparr>) w2)
                     | (Raised e, w1) \<Rightarrow> (Raised e, w1)
                     | (OutOfFuel, w1) \<Rightarrow> (OutOfFuel, w1)))
           | [] \<Rightarrow>
               (case process_dir cfg path rule_path tags (L\<lparr>directories := rest\<rparr>) w of
                  Conflict \<Rightarrow> (Returned (True, [], []), w)
                | Broken w1 \<Rightarrow> (Raised OSError, w1)
                | Processed L2 w2 \<Rightarrow> walk cfg n target_path rule_path tags L2 w2)))"

definition apply_tag ::
  "environ \<Rightarrow> nat \<Rightarrow> string \<Rightarrow> string \<Rightarrow> tags \<Rightarrow> world \<Rightarrow> run_result outcome \<times> world"
where
  "apply_tag cfg n target_path rule_path tags w =
     walk cfg n target_path rule_path tags (init_locals target_path) w"

subsection \<open>The driver\<close>

text \<open>
  \<open>Path(S3_MOUNT_PATH).rglob('.freeze.*')\<close>: the directive files of a directory, then
  those of its subdirectories, each with the directory that holds it; a directory that
  cannot be listed yields nothing. The fuel bounds the depth of the tree.
\<close>

fun rglob_freezefiles :: "nat \<Rightarrow> world \<Rightarrow> string \<Rightarrow> (string \<times> string) list option" where
  "rglob_freezefiles 0 w p = None"
| "rglob_freezefiles (Suc n) w p =
     (case those (map (\<lambda>(d, isdir). if isdir then rglob_freezefiles n w (path_join p d)
                                    else Some [])
                   (if listable w p then listdir w p else [])) of
        None \<Rightarrow> None
      | Some below \<Rightarrow> Some (map (Pair p) (glob_freezefiles w p) @ concat below))"

definition select_roots :: "string list \<Rightarrow> string list" where
  "select_roots tgt_folder_candidates =
     foldl (\<lambda>tgt_folders tgt_folder.
              if list_ex (\<lambda>x. prefix (x @ ''/'') tgt_folder) tgt_folders then tgt_folders
              else tgt_folders @ [tgt_folder])
       [] tgt_folder_candidates"

definition report :: "string \<Rightarrow> bool \<Rightarrow> string" where
  "report tgt_folder ok =
     ''Freezing path '' @
     (if length tgt_folder \<le> 4000 then tgt_folder else take 3997 tgt_folder @ ''...'') @
     '' '' @ (if ok then ''Succeeded'' else ''Failed'')"

fun run_roots :: "environ \<Rightarrow> nat \<Rightarrow> string list \<Rightarrow> world \<Rightarrow> int outcome \<times> world" where
  "run_roots cfg n [] w = (Returned 0, w)"
| "run_roots cfg n (tgt_folder # rest) w =
     (case glob_freezefiles w tgt_folder of
        [] \<Rightarrow> (Raised IndexError, w)
      | freezefile # _ \<Rightarrow>
          (case parse_freezefile freezefile of
             Inl e \<Rightarrow> (Raised e, w)
           | Inr tag \<Rightarrow>
               (case apply_tag cfg n tgt_folder tgt_folder tag w of
                  (Returned ret, w1) \<Rightarrow>
                    (case os_remove w1 tgt_folder freezefile of
                       None \<Rightarrow> (Raised OSError, w1)
                     | Some w2 \<Rightarrow>
                         run_roots cfg n rest
                           (w2\<lparr>sent := sent w2 @ [report tgt_folder (fst ret)]\<rparr>))
                | (Raised e, w1) \<Rightarrow> (Raised e, w1)
                | (OutOfFuel, w1) \<Rightarrow> (OutOfFuel, w1))))"

definition main :: "environ \<Rightarrow> nat \<Rightarrow> world \<Rightarrow> int outcome \<times> world" where
  "main cfg n w =
     (case rglob_freezefiles n w (S3_MOUNT_PATH cfg) of
        None \<Rightarrow> (OutOfFuel, w)
      | Some freeze_paths \<Rightarrow>
          run_roots cfg n (select_roots (sort_key length (map fst freeze_paths))) w)"

subsection \<open>Concrete worlds\<close>

text \<open>
  Small file systems under the mount \<open>/m\<close>, on which the theorems below are run. The
  directories are those given with their entries; a directory with no record given has
  no \<open>.frozen\<close> file; every record can be written and there is no symbolic link.
\<close>

definition mk_world ::
  "(string \<times> (string \<times> bool) list) list \<Rightarrow> (string \<times> filedata) list \<Rightarrow> world"
where
  "mk_world dirs recs =
     \<lparr>listable = (\<lambda>p. map_of dirs p \<noteq> None),
      entries = (\<lambda>p. case map_of dirs p of Some es \<Rightarrow> es | None \<Rightarrow> []),
      statefile = (\<lambda>p. case map_of recs p of Some f \<Rightarrow> f | None \<Rightarrow> NoFile),
      locked = (\<lambda>p. False),
      resolve = (\<lambda>p. p),
      calls = [], sent = []\<rparr>"

definition cfg_ok :: environ where
  "cfg_ok = \<lparr>S3_MOUNT_PATH = ''/m'', put_object_tagging = (\<lambda>key tagset. True)\<rparr>"

definition cfg_fail_f :: environ where
  "cfg_fail_f =
     \<lparr>S3_MOUNT_PATH = ''/m'', put_object_tagging = (\<lambda>key tagset. key \<noteq> ''a/f'')\<rparr>"

definition cold :: tags where
  "cold = [(''tier'', ''cold'')]"

text \<open>A record that passes \<open>CONFIG_SCHEMA\<close>: all four fields, \<open>rule-at\<close> an object.\<close>

definition foreign_record :: json where
  "foreign_record =
     JObj [(''rule-at'', JObj []), (''applied-tags'', JObj []),
           (''affected-files'', JArr []), (''freezefile-tags'', JObj [])]"

definition world_conflict :: world where
  "world_conflict =
     mk_world [(''/m/a'', [(''f'', False), (''g'', False), (''d1'', True), (''d2'', True)]),
               (''/m/a/d1'', [(''y'', False)]), (''/m/a/d2'', [])]
              [(''/m/a/d2'', Json foreign_record)]"

definition world_nested :: world where
  "world_nested =
     mk_world [(''/m/a'', [(''d'', True)]),
               (''/m/a/d'', [(''.freeze.k=v'', False), (''y'', False)])] []"

definition world_single :: world where
  "world_single = mk_world [(''/m/a'', [(''x'', False)])] []"

definition world_markers :: world where
  "world_markers =
     mk_world [(''/m/a'', [(''.freeze.k=v'', False), (''x'', False)])] [(''/m/a'', Garbled)]"

definition world_two :: world where
  "world_two =
     mk_world [(''/m'', [(''a'', True)]),
               (''/m/a'', [(''.freeze.k=1'', False), (''.freeze.k=2'', False), (''x'', False)])]
              []"

definition world_bad :: world where
  "world_bad =
     mk_world [(''/m'', [(''a'', True)]),
               (''/m/a'', [(''.freeze.tier=cold'', False), (''d'', True)]),
               (''/m/a/d'', [(''.freeze.oops'', False)])] []"

text \<open>Two fields of a stored record, for reading the results.\<close>

definition affected_files :: "filedata \<Rightarrow> json" where
  "affected_files f =
     (case f of Json (JObj kv) \<Rightarrow> dict_get kv ''affected-files'' | _ \<Rightarrow> JNull)"

definition rule_at :: "filedata \<Rightarrow> json" where
  "rule_at f = (case f of Json (JObj kv) \<Rightarrow> dict_get kv ''rule-at'' | _ \<Rightarrow> JNull)"

definition warm :: tags where
  "warm = [(''tier'', ''warm'')]"

text \<open>The record that a run under the rule \<open>/m/a\<close> with the tags \<open>cold\<close> leaves in \<open>/m/a\<close>.\<close>

definition world_listed :: world where
  "world_listed =
     mk_world [(''/m/a'', [(''x'', False)])]
              [(''/m/a'', Json (JObj [(''rule-at'', JStr ''/m/a''),
                                       (''applied-tags'', JObj [(''tier'', JStr ''cold'')]),
                                       (''affected-files'', JArr [JStr ''x'']),
                                       (''freezefile-tags'',
                                          JObj [(''storage-class'', JStr ''infrequent-access'')])]))]"

definition world_sub :: world where
  "world_sub =
     mk_world [(''/m/a'', [(''d'', True)]), (''/m/a/d'', [(''y'', False)])] []"

text \<open>A directory whose \<open>.frozen\<close> can neither be read nor be written.\<close>

definition world_locked :: world where
  "world_locked =
     (mk_world [(''/m/a'', [(''x'', False)])] [(''/m/a'', Garbled)])
       \<lparr>locked := (\<lambda>p. p = ''/m/a'')\<rparr>"

subsection \<open>Vocabulary of the theorems\<close>

text \<open>A stored record whose \<open>affected-files\<close> names no file twice.\<close>

definition affected_once :: "filedata \<Rightarrow> bool" where
  "affected_once f = (case affected_files f of JArr xs \<Rightarrow> distinct xs | _ \<Rightarrow> False)"

text \<open>The names of a listing that pass the guard for hidden files.\<close>

definition visible :: "(string \<times> bool) list \<Rightarrow> string list" where
  "visible es = map fst (filter (\<lambda>e. \<not> prefix ''.'' (fst e)) es)"

section \<open>Properties\<close>

subsection \<open>The record and the schema\<close>

lemma dict_get_update:
  "dict_get (AList.update k v d) k' = (if k' = k then v else dict_get d k')"
  by (simp add: dict_get_def update_conv')

lemma has_type_object: "has_type TObject v \<Longrightarrow> \<exists>kv. v = JObj kv"
  by (cases v) auto

lemma load_frozen_Some_iff:
  "load_frozen f = Some fr \<longleftrightarrow> f = Json (JObj fr) \<and> validate CONFIG_SCHEMA (JObj fr)"
  by (auto simp: load_frozen_def split: filedata.splits json.splits if_splits)

lemma load_frozen_None_iff:
  "load_frozen f = None \<longleftrightarrow>
     f = NoFile \<or> f = Garbled \<or> (\<exists>j. f = Json j \<and> \<not> validate CONFIG_SCHEMA j)"
  by (cases f; cases "case f of Json j \<Rightarrow> j | _ \<Rightarrow> JNull")
     (auto simp: load_frozen_def CONFIG_SCHEMA_def split: filedata.splits json.splits if_splits)

text \<open>
  The schema asks for an object under \<open>rule-at\<close>, and the walk compares that field with
  the string \<open>rule_path\<close>: a record that validates never names the current rule.
\<close>

lemma valid_rule_at_object:
  assumes "validate CONFIG_SCHEMA (JObj fr)"
  shows "\<exists>kv. dict_get fr ''rule-at'' = JObj kv"
proof -
  from assms obtain v where v: "map_of fr ''rule-at'' = Some v"
    by (auto simp: CONFIG_SCHEMA_def)
  with assms have "has_type TObject v"
    by (simp add: CONFIG_SCHEMA_def)
  then show ?thesis using v by (auto simp: dict_get_def dest: has_type_object)
qed

lemma valid_record_conflicts:
  "load_frozen f = Some fr \<Longrightarrow> dict_get fr ''rule-at'' \<noteq> JStr rule_path"
  using valid_rule_at_object [of fr] by (auto simp: load_frozen_Some_iff)

lemma process_dir_Processed:
  "process_dir cfg path rule_path tags L w = Processed L' w' \<longleftrightarrow>
     load_frozen (statefile w path) = None \<and>
     scan_dir cfg path rule_path tags
       (AList.update ''affected-files'' (JArr []) BASE_CONFIG) (L\<lparr>state := False\<rparr>) w
       = Processed L' w'"
  by (auto simp: process_dir_def valid_record_conflicts split: option.splits)

lemma process_dir_Broken:
  "process_dir cfg path rule_path tags L w = Broken w' \<longleftrightarrow>
     load_frozen (statefile w path) = None \<and>
     scan_dir cfg path rule_path tags
       (AList.update ''affected-files'' (JArr []) BASE_CONFIG) (L\<lparr>state := False\<rparr>) w
       = Broken w'"
  by (auto simp: process_dir_def valid_record_conflicts split: option.splits)

subsection \<open>Hidden entries\<close>

lemma visit_hidden: "prefix ''.'' file \<Longrightarrow> visit_entry cfg path tags (file, d) s = s"
  by (simp add: visit_entry_def split: prod.splits)

lemma marker_hidden:
  "prefix FREEZEFILE_PREFIX file \<or> file = FROZENFILE \<Longrightarrow> prefix ''.'' file"
  by (auto simp: FREEZEFILE_PREFIX_def FROZENFILE_def prefix_def)

lemma visit_marker_or_record:
  "prefix FREEZEFILE_PREFIX file \<or> file = FROZENFILE \<Longrightarrow>
     visit_entry cfg path tags (file, isdir) s = s"
  by (rule visit_hidden) (rule marker_hidden)

subsection \<open>Directive names\<close>

lemma py_split_no_sep: "c \<notin> set s \<Longrightarrow> py_split c s = [s]"
  by (induction s) auto

lemma dict_of_pairs_short:
  "list_ex (\<lambda>x. length x < 2) xs \<Longrightarrow> dict_of_pairs xs d = Inl IndexError"
proof (induction xs arbitrary: d)
  case Nil
  then show ?case by simp
next
  case (Cons x xs)
  show ?case
  proof (cases "length x < 2")
    case True
    then show ?thesis by (cases x; cases "tl x") auto
  next
    case False
    then obtain k v r where "x = k # v # r"
      by (cases x; cases "tl x") auto
    with Cons False show ?thesis by simp
  qed
qed

lemma parse_freezefile_raises:
  assumes "list_ex (\<lambda>seg. CHR ''='' \<notin> set seg)
             (py_split CHR '';'' (drop (length FREEZEFILE_PREFIX) name))"
  shows "parse_freezefile name = Inl IndexError"
proof -
  have "list_ex (\<lambda>x. length x < 2)
          (map (py_split CHR ''='') (py_split CHR '';'' (drop (length FREEZEFILE_PREFIX) name)))"
    using assms by (force simp: list_ex_iff py_split_no_sep)
  then show ?thesis
    by (simp add: parse_freezefile_def dict_of_pairs_short)
qed

subsection \<open>The loop over the entries\<close>

lemma visit_entry_effect:
  assumes "visit_entry cfg path tags (file, isdir) (frozen, L, w) = (frozen', L', w')"
  shows "listable w' = listable w \<and> entries w' = entries w \<and> statefile w' = statefile w \<and>
         locked w' = locked w \<and> resolve w' = resolve w \<and> sent w' = sent w"
  using assms by (auto simp: visit_entry_def Let_def split: if_splits)

lemma fold_visit_step:
  assumes "fold (visit_entry cfg path tags) (e # es) (frozen, L, w) = (frozen', L', w')"
  obtains nm isdir f1 L1 w1 where "e = (nm, isdir)"
    "visit_entry cfg path tags (nm, isdir) (frozen, L, w) = (f1, L1, w1)"
    "fold (visit_entry cfg path tags) es (f1, L1, w1) = (frozen', L', w')"
proof -
  obtain nm isdir where e: "e = (nm, isdir)" by (cases e)
  obtain f1 L1 w1 where v: "visit_entry cfg path tags (nm, isdir) (frozen, L, w) = (f1, L1, w1)"
    by (cases "visit_entry cfg path tags (nm, isdir) (frozen, L, w)") auto
  from assms e v have "fold (visit_entry cfg path tags) es (f1, L1, w1) = (frozen', L', w')"
    by simp
  with e v that show thesis by blast
qed

lemma fold_visit_frame:
  assumes "fold (visit_entry cfg path tags) es (frozen, L, w) = (frozen', L', w')"
  shows "listable w' = listable w \<and> entries w' = entries w \<and> statefile w' = statefile w \<and>
         locked w' = locked w \<and> resolve w' = resolve w \<and> sent w' = sent w"
  using assms
proof (induction es arbitrary: frozen L w)
  case Nil
  then show ?case by simp
next
  case (Cons e es)
  from Cons.prems obtain nm isdir f1 L1 w1 where
    v: "visit_entry cfg path tags (nm, isdir) (frozen, L, w) = (f1, L1, w1)" and
    r: "fold (visit_entry cfg path tags) es (f1, L1, w1) = (frozen', L', w')"
    by (rule fold_visit_step)
  from Cons.IH [OF r] visit_entry_effect [OF v] show ?case by simp
qed

lemma write_frozen_Some:
  assumes "write_frozen path rule_path tags frozen w = Some w'"
  shows "w' = w\<lparr>statefile := (statefile w)(path := Json (JObj
           (AList.update ''freezefile-tags'' (json_of_tags FREEZEFILE_TAGS)
             (AList.update ''applied-tags'' (json_of_tags tags)
               (AList.update ''rule-at'' (JStr rule_path) frozen)))))\<rparr>"
  using assms by (simp add: write_frozen_def split: if_splits)

lemma scan_dir_Processed:
  assumes "scan_dir cfg path rule_path tags frozen L w = Processed L' w'"
  obtains f1 w1 where
    "fold (visit_entry cfg path tags) (listdir w path) (frozen, L, w) = (f1, L', w1)"
    "write_frozen path rule_path tags f1 w1 = Some w'"
proof -
  obtain f1 L1 w1 where
    f: "fold (visit_entry cfg path tags) (listdir w path) (frozen, L, w) = (f1, L1, w1)"
    by (cases "fold (visit_entry cfg path tags) (listdir w path) (frozen, L, w)") auto
  with assms have "L1 = L'" "write_frozen path rule_path tags f1 w1 = Some w'"
    by (auto simp: scan_dir_def split: if_splits option.splits)
  with f that show thesis by blast
qed

lemma scan_dir_effect:
  assumes "scan_dir cfg path rule_path tags frozen L w = Processed L' w'"
  shows "entries w' = entries w"
    and "q \<noteq> path \<Longrightarrow> statefile w' q = statefile w q"
proof -
  from assms obtain f1 w1 where
    f: "fold (visit_entry cfg path tags) (listdir w path) (frozen, L, w) = (f1, L', w1)" and
    wr: "write_frozen path rule_path tags f1 w1 = Some w'"
    by (rule scan_dir_Processed)
  from fold_visit_frame [OF f] write_frozen_Some [OF wr]
  show "entries w' = entries w" "q \<noteq> path \<Longrightarrow> statefile w' q = statefile w q"
    by simp_all
qed

lemma scan_dir_Broken:
  assumes "scan_dir cfg path rule_path tags frozen L w = Broken w'"
  shows "entries w' = entries w \<and> statefile w' = statefile w"
proof (cases "listable w path")
  case False
  with assms show ?thesis by (simp add: scan_dir_def)
next
  case True
  obtain f1 L1 w1 where
    f: "fold (visit_entry cfg path tags) (listdir w path) (frozen, L, w) = (f1, L1, w1)"
    by (cases "fold (visit_entry cfg path tags) (listdir w path) (frozen, L, w)") auto
  with assms True have "w' = w1"
    by (auto simp: scan_dir_def split: option.splits)
  with fold_visit_frame [OF f] show ?thesis by simp
qed

subsection \<open>Invariants of the walk\<close>

text \<open>
  A property of the world that every step of the loop keeps holds of the world an
  invocation ends with, whatever its outcome.
\<close>

lemma walk_invariant:
  assumes proc: "\<And>path tags L w L' w'. Inv w \<Longrightarrow>
            process_dir cfg path rule_path tags L w = Processed L' w' \<Longrightarrow> Inv w'"
    and brk: "\<And>path tags L w w'. Inv w \<Longrightarrow>
            process_dir cfg path rule_path tags L w = Broken w' \<Longrightarrow> Inv w'"
    and rem: "\<And>w p f w'. Inv w \<Longrightarrow> os_remove w p f = Some w' \<Longrightarrow> Inv w'"
    and "Inv w"
  shows "Inv (snd (walk cfg n target_path rule_path tags L w))"
  using assms(4)
proof (induction n arbitrary: target_path tags L w)
  case 0
  then show ?case by simp
next
  case (Suc n)
  show ?case
  proof (cases "directories L")
    case Nil
    with Suc.prems show ?thesis by simp
  next
    case (Cons path rest)
    show ?thesis
    proof (cases "if path \<noteq> target_path then glob_freezefiles w path else []")
      case Nil
      show ?thesis
      proof (cases "process_dir cfg path rule_path tags (L\<lparr>directories := rest\<rparr>) w")
        case Conflict
        with Nil Cons Suc.prems show ?thesis by simp
      next
        case (Broken w1)
        from brk [OF Suc.prems this] Nil Cons Broken show ?thesis by simp
      next
        case (Processed L2 w2)
        from proc [OF Suc.prems this] have "Inv w2" .
        from Suc.IH [OF this] Nil Cons Processed show ?thesis by simp
      qed
    next
      case g: (Cons f fs)
      show ?thesis
      proof (cases "parse_freezefile f")
        case (Inl e)
        with g Cons Suc.prems show ?thesis by simp
      next
        case (Inr parsed)
        define res where "res = walk cfg n path rule_path parsed (init_locals path) w"
        have I1: "Inv (snd res)"
          unfolding res_def using Suc.prems by (rule Suc.IH)
        obtain out w1 where res: "res = (out, w1)" by (cases res)
        show ?thesis
        proof (cases out)
          case (Returned ret)
          show ?thesis
          proof (cases "os_remove w1 path f")
            case None
            with Returned res I1 g Inr Cons
            show ?thesis by (simp add: res_def [symmetric])
          next
            case (Some w2)
            from rem [OF _ Some] I1 res have I2: "Inv w2" by simp
            have "Inv (snd (walk cfg n target_path rule_path tags
                     (L\<lparr>directories := rest,
                        processed_files := processed_files L @ fst (snd ret),
                        failed_files := failed_files L @ snd (snd ret),
                        state := (state L \<and> fst ret)\<rparr>) w2))"
              using I2 by (rule Suc.IH)
            with Returned res Some g Inr Cons
            show ?thesis by (simp add: res_def [symmetric])
          qed
        next
          case (Raised e)
          with res I1 g Inr Cons
          show ?thesis by (simp add: res_def [symmetric])
        next
          case OutOfFuel
          with res I1 g Inr Cons
          show ?thesis by (simp add: res_def [symmetric])
        qed
      qed
    qed
  qed
qed

subsection \<open>The list of affected files\<close>

lemma visible_Cons:
  "visible ((nm, b) # es) = (if prefix ''.'' nm then visible es else nm # visible es)"
  by (simp add: visible_def)

lemma visible_listdir: "visible (listdir w p) = visible (entries w p)"
  by (simp add: visible_def listdir_def FROZENFILE_def)

lemma distinct_visible: "distinct (map fst es) \<Longrightarrow> distinct (visible es)"
  unfolding visible_def by (rule distinct_map_filter)

lemma visit_entry_frozen:
  assumes "visit_entry cfg path tags (nm, isdir) (frozen, L, w) = (frozen', L', w')"
  shows "frozen' = frozen \<or>
     (\<not> prefix ''.'' nm \<and>
      frozen' = AList.update ''affected-files''
                  (py_append (dict_get frozen ''affected-files'') nm) frozen)"
  using assms by (auto simp: visit_entry_def Let_def split: if_splits)

lemma fold_visit_affected:
  assumes "fold (visit_entry cfg path tags) es (frozen, L, w) = (frozen', L', w')"
    and "dict_get frozen ''affected-files'' = JArr xs" and "distinct xs"
    and "distinct (visible es)" and "JStr ` set (visible es) \<inter> set xs = {}"
  shows "\<exists>ys. dict_get frozen' ''affected-files'' = JArr ys \<and> distinct ys \<and>
              set ys \<subseteq> set xs \<union> JStr ` set (visible es)"
  using assms
proof (induction es arbitrary: frozen L w xs)
  case Nil
  then show ?case by simp
next
  case (Cons e es)
  from Cons.prems(1) obtain nm isdir f1 L1 w1 where
    e: "e = (nm, isdir)" and
    v: "visit_entry cfg path tags (nm, isdir) (frozen, L, w) = (f1, L1, w1)" and
    r: "fold (visit_entry cfg path tags) es (f1, L1, w1) = (frozen', L', w')"
    by (rule fold_visit_step)
  from Cons.prems(4,5) e have d: "distinct (visible es)"
    and dj: "JStr ` set (visible es) \<inter> set xs = {}"
    by (auto simp: visible_Cons split: if_splits)
  from visit_entry_frozen [OF v] show ?case
  proof
    assume "f1 = frozen"
    with Cons.IH [OF r _ Cons.prems(3) d dj] Cons.prems(2) e
    show ?thesis by (auto simp: visible_Cons)
  next
    assume a: "\<not> prefix ''.'' nm \<and>
      f1 = AList.update ''affected-files''
             (py_append (dict_get frozen ''affected-files'') nm) frozen"
    then have f1: "dict_get f1 ''affected-files'' = JArr (xs @ [JStr nm])"
      using Cons.prems(2) by (simp add: dict_get_update py_append_def)
    from a Cons.prems(3,4,5) e have d1: "distinct (xs @ [JStr nm])"
      and dj1: "JStr ` set (visible es) \<inter> set (xs @ [JStr nm]) = {}"
      by (auto simp: visible_Cons)
    from Cons.IH [OF r f1 d1 d dj1] a e show ?thesis
      by (auto simp: visible_Cons)
  qed
qed

lemma scan_dir_fresh_affected:
  assumes "scan_dir cfg path rule_path tags
             (AList.update ''affected-files'' (JArr []) BASE_CONFIG) L w = Processed L' w'"
    and "distinct (map fst (entries w path))"
  shows "affected_once (statefile w' path)"
proof -
  let ?fr = "AList.update ''affected-files'' (JArr []) BASE_CONFIG"
  from assms(1) obtain f1 w1 where
    f: "fold (visit_entry cfg path tags) (listdir w path) (?fr, L, w) = (f1, L', w1)" and
    wr: "write_frozen path rule_path tags f1 w1 = Some w'"
    by (rule scan_dir_Processed)
  have "dict_get ?fr ''affected-files'' = JArr []"
    by (simp add: dict_get_update)
  from fold_visit_affected [OF f this] assms(2)
  obtain ys where "dict_get f1 ''affected-files'' = JArr ys" "distinct ys"
    by (auto simp: visible_listdir distinct_visible)
  then show ?thesis
    by (simp add: write_frozen_Some [OF wr] affected_once_def affected_files_def dict_get_update)
qed

lemma distinct_map_remove1: "distinct (map f xs) \<Longrightarrow> distinct (map f (remove1 x xs))"
  by (induction xs) (auto dest!: set_remove1_subset [THEN subsetD])

lemma walk_affected_once:
  assumes "\<forall>p. distinct (map fst (entries w p))"
  shows "\<forall>p. statefile (snd (walk cfg n target_path rule_path tags L w)) p = statefile w p \<or>
             affected_once (statefile (snd (walk cfg n target_path rule_path tags L w)) p)"
proof -
  define Inv where "Inv = (\<lambda>v::world. (\<forall>p. distinct (map fst (entries v p))) \<and>
     (\<forall>p. statefile v p = statefile w p \<or> affected_once (statefile v p)))"
  have "Inv (snd (walk cfg n target_path rule_path tags L w))"
  proof (rule walk_invariant)
    fix path tags L v L' v'
    assume I: "Inv v" and p: "process_dir cfg path rule_path tags L v = Processed L' v'"
    from p have s: "scan_dir cfg path rule_path tags
        (AList.update ''affected-files'' (JArr []) BASE_CONFIG) (L\<lparr>state := False\<rparr>) v
        = Processed L' v'"
      by (simp add: process_dir_Processed)
    from I have "distinct (map fst (entries v path))" by (simp add: Inv_def)
    from scan_dir_fresh_affected [OF s this] scan_dir_effect [OF s] I
    show "Inv v'" unfolding Inv_def by metis
  next
    fix path tags L v v'
    assume I: "Inv v" and p: "process_dir cfg path rule_path tags L v = Broken v'"
    from p have "scan_dir cfg path rule_path tags
        (AList.update ''affected-files'' (JArr []) BASE_CONFIG) (L\<lparr>state := False\<rparr>) v
        = Broken v'"
      by (simp add: process_dir_Broken)
    from scan_dir_Broken [OF this] I show "Inv v'" by (simp add: Inv_def)
  next
    fix v p f v'
    assume "Inv v" "os_remove v p f = Some v'"
    then show "Inv v'"
      by (auto simp: Inv_def os_remove_def distinct_map_remove1 split: if_splits)
  next
    show "Inv w" using assms by (simp add: Inv_def)
  qed
  then show ?thesis by (simp add: Inv_def)
qed

subsection \<open>Fuel\<close>

text \<open>
  An outcome other than \<open>OutOfFuel\<close> does not depend on the fuel: more fuel gives the
  same result and the same world.
\<close>

lemma walk_more_fuel:
  assumes "fst (walk cfg n target_path rule_path tags L w) \<noteq> OutOfFuel"
  shows "walk cfg (n + k) target_path rule_path tags L w
           = walk cfg n target_path rule_path tags L w"
  using assms
proof (induction n arbitrary: target_path tags L w)
  case 0
  then show ?case by simp
next
  case (Suc n)
  show ?case
  proof (cases "directories L")
    case Nil
    then show ?thesis by simp
  next
    case (Cons path rest)
    show ?thesis
    proof (cases "if path \<noteq> target_path then glob_freezefiles w path else []")
      case Nil
      show ?thesis
      proof (cases "process_dir cfg path rule_path tags (L\<lparr>directories := rest\<rparr>) w")
        case Conflict
        with Nil Cons show ?thesis by simp
      next
        case (Broken w1)
        with Nil Cons show ?thesis by simp
      next
        case (Processed L2 w2)
        from Suc.prems Nil Cons Processed
        have "fst (walk cfg n target_path rule_path tags L2 w2) \<noteq> OutOfFuel" by simp
        from Suc.IH [OF this] Nil Cons Processed show ?thesis by simp
      qed
    next
      case g: (Cons f gs)
      show ?thesis
      proof (cases "parse_freezefile f")
        case (Inl e)
        with g Cons show ?thesis by simp
      next
        case (Inr parsed)
        obtain out w1 where res: "walk cfg n path rule_path parsed (init_locals path) w = (out, w1)"
          by (cases "walk cfg n path rule_path parsed (init_locals path) w")
        from Suc.prems g Cons Inr res have o: "out \<noteq> OutOfFuel"
          by (auto split: outcome.splits option.splits)
        with res have "fst (walk cfg n path rule_path parsed (init_locals path) w) \<noteq> OutOfFuel"
          by simp
        from Suc.IH [OF this] res
        have res': "walk cfg (n + k) path rule_path parsed (init_locals path) w = (out, w1)"
          by simp
        show ?thesis
        proof (cases out)
          case (Returned ret)
          show ?thesis
          proof (cases "os_remove w1 path f")
            case None
            with Returned res res' g Inr Cons show ?thesis by simp
          next
            case (Some w2)
            let ?L = "L\<lparr>directories := rest,
                        processed_files := processed_files L @ fst (snd ret),
                        failed_files := failed_files L @ snd (snd ret),
                        state := (state L \<and> fst ret)\<rparr>"
            from Suc.prems Returned res Some g Inr Cons
            have "fst (walk cfg n target_path rule_path tags ?L w2) \<noteq> OutOfFuel" by simp
            from Suc.IH [OF this] Returned res res' Some g Inr Cons show ?thesis by simp
          qed
        next
          case (Raised e)
          with res res' g Inr Cons show ?thesis by simp
        next
          case OutOfFuel
          with o show ?thesis by simp
        qed
      qed
    qed
  qed
qed

lemma apply_tag_more_fuel:
  "fst (apply_tag cfg n target_path rule_path tags w) \<noteq> OutOfFuel \<Longrightarrow>
     apply_tag cfg (n + k) target_path rule_path tags w
       = apply_tag cfg n target_path rule_path tags w"
  unfolding apply_tag_def by (rule walk_more_fuel)

section \<open>The claims\<close>

text \<open>
  C1. Claim: when a popped directory carries a valid record of another rule, only that
  directory and its subtree are abandoned, the rest of the work stack is still
  processed and what was accumulated before is kept in the result.
  The code returns \<open>(True, [], [])\<close> from the whole invocation instead. In
  \<open>world_conflict\<close> the call for \<open>/m/a/f\<close> fails and \<open>/m/a/d2\<close> carries a valid
  record: the invocation on \<open>/m/a\<close> returns success with empty lists, and \<open>/m/a/d1\<close>,
  still on the stack, is never processed.
\<close>

theorem conflict_return_discards_aggregate:
  "fst (apply_tag cfg_fail_f 10 ''/m/a'' ''/m/a'' cold world_conflict) = Returned (True, [], []) \<and>
   map fst (calls (snd (apply_tag cfg_fail_f 10 ''/m/a'' ''/m/a'' cold world_conflict)))
     = [''/m/a/f'', ''/m/a/g''] \<and>
   statefile (snd (apply_tag cfg_fail_f 10 ''/m/a'' ''/m/a'' cold world_conflict)) ''/m/a/d1''
     = NoFile"
  by code_simp

text \<open>
  C2. Claim: a nested directive in \<open>D\<close> makes the engine invoke itself with target \<open>D\<close>
  and rule origin \<open>D\<close>, so that the records of that subtree carry \<open>rule_origin = D\<close>.
  The code passes the outer \<open>rule_path\<close> on. In \<open>world_nested\<close> the directive of
  \<open>/m/a/d\<close> is parsed, applied and deleted, and the record written in \<open>/m/a/d\<close> names
  \<open>/m/a\<close>.
\<close>

theorem nested_call_keeps_outer_rule:
  "fst (apply_tag cfg_ok 10 ''/m/a'' ''/m/a'' cold world_nested)
     = Returned (False, [''/m/a/d/y''], []) \<and>
   map (snd \<circ> snd) (calls (snd (apply_tag cfg_ok 10 ''/m/a'' ''/m/a'' cold world_nested)))
     = [[(''k'', ''v'')]] \<and>
   rule_at (statefile (snd (apply_tag cfg_ok 10 ''/m/a'' ''/m/a'' cold world_nested)) ''/m/a/d'')
     = JStr ''/m/a'' \<and>
   entries (snd (apply_tag cfg_ok 10 ''/m/a'' ''/m/a'' cold world_nested)) ''/m/a/d''
     = [(''y'', False)]"
  by code_simp

text \<open>
  C3. Claim: a second run with the same target, rule origin and tag set makes no remote
  call. The record the first run writes has a string under \<open>rule-at\<close>, which
  \<open>CONFIG_SCHEMA\<close> rejects, so the second run starts from an empty record again. In
  \<open>world_single\<close> both runs tag \<open>/m/a/x\<close>, and the second run reports failure.
\<close>

theorem second_run_tags_again:
  "(let w1 = snd (apply_tag cfg_ok 10 ''/m/a'' ''/m/a'' cold world_single);
        r2 = apply_tag cfg_ok 10 ''/m/a'' ''/m/a'' cold w1
    in load_frozen (statefile w1 ''/m/a'') = None \<and>
       map fst (calls w1) = [''/m/a/x''] \<and>
       fst r2 = Returned (False, [''/m/a/x''], []) \<and>
       map fst (calls (snd r2)) = [''/m/a/x'', ''/m/a/x''])"
  by code_simp

text \<open>
  C4. Claim: a directory \<open>D\<close> with a persisted valid record of rule origin \<open>R1\<close> is left
  alone by a walk with another rule origin \<open>R2\<close> that reaches it: its record stays as
  it is and no remote call is made for a file under it. The records that the program
  writes fail its own schema (a string under \<open>rule-at\<close>), so the walk never sees their
  rule origin. In \<open>world_sub\<close> a first invocation makes \<open>/m/a/d\<close> the root of its own
  rule and leaves the record with \<open>rule-at = /m/a/d\<close> there; the invocation on \<open>/m/a\<close>
  that follows cannot load that record, tags \<open>/m/a/d/y\<close> again with its own tags and
  overwrites the record with \<open>rule-at = /m/a\<close>.
\<close>

theorem owned_record_overwritten:
  "(let w1 = snd (apply_tag cfg_ok 10 ''/m/a/d'' ''/m/a/d'' cold world_sub);
        w2 = snd (apply_tag cfg_ok 10 ''/m/a'' ''/m/a'' warm w1)
    in rule_at (statefile w1 ''/m/a/d'') = JStr ''/m/a/d'' \<and>
       calls w1 = [(''/m/a/d/y'', ''a/d/y'', cold)] \<and>
       load_frozen (statefile w1 ''/m/a/d'') = None \<and>
       rule_at (statefile w2 ''/m/a/d'') = JStr ''/m/a'' \<and>
       calls w2 = [(''/m/a/d/y'', ''a/d/y'', cold), (''/m/a/d/y'', ''a/d/y'', warm)])"
  by code_simp

text \<open>
  C5. Claim: when the call fails for \<open>f\<close> and succeeds for \<open>g\<close> in a processed
  directory, its record lists \<open>g\<close> and not \<open>f\<close>, and the result of the invocation
  holds the path of \<open>f\<close> exactly once in its failed list. In \<open>world_conflict\<close> the
  record of \<open>/m/a\<close> is as claimed, but the invocation returns an empty failed list: the
  return at the conflict in \<open>/m/a/d2\<close> drops it.
\<close>

theorem failed_file_lost_from_result:
  "affected_files
     (statefile (snd (apply_tag cfg_fail_f 10 ''/m/a'' ''/m/a'' cold world_conflict)) ''/m/a'')
     = JArr [JStr ''g''] \<and>
   (''/m/a/f'', ''a/f'', cold)
     \<in> set (calls (snd (apply_tag cfg_fail_f 10 ''/m/a'' ''/m/a'' cold world_conflict))) \<and>
   put_object_tagging cfg_fail_f ''a/f'' cold = False \<and>
   fst (apply_tag cfg_fail_f 10 ''/m/a'' ''/m/a'' cold world_conflict) = Returned (True, [], [])"
  by code_simp

text \<open>
  C6. Claim: a directory whose state record is absent, unreadable or rejected by the
  schema is processed from an empty record, the success flag of the walk is forced to
  \<open>False\<close>, nothing is raised and the rest of the walk continues. The flag is set and
  the directory is processed, but neither lasts. In \<open>world_conflict\<close> the record of
  \<open>/m/a\<close> is absent and every call succeeds; the conflict met later in \<open>/m/a/d2\<close> makes
  the invocation return success, with \<open>/m/a/d1\<close> never processed. In \<open>world_locked\<close> the
  \<open>.frozen\<close> of \<open>/m/a\<close> cannot be opened: the failure of the load is swallowed, the file
  \<open>x\<close> is tagged, and the write of the record then raises out of the invocation.
\<close>

theorem invalid_record_flag_and_walk_lost:
  "load_frozen (statefile world_conflict ''/m/a'') = None \<and>
   fst (apply_tag cfg_ok 10 ''/m/a'' ''/m/a'' cold world_conflict) = Returned (True, [], []) \<and>
   map fst (calls (snd (apply_tag cfg_ok 10 ''/m/a'' ''/m/a'' cold world_conflict)))
     = [''/m/a/f'', ''/m/a/g''] \<and>
   statefile (snd (apply_tag cfg_ok 10 ''/m/a'' ''/m/a'' cold world_conflict)) ''/m/a/d1''
     = NoFile \<and>
   load_frozen (statefile world_locked ''/m/a'') = None \<and>
   fst (apply_tag cfg_ok 10 ''/m/a'' ''/m/a'' cold world_locked) = Raised OSError \<and>
   map fst (calls (snd (apply_tag cfg_ok 10 ''/m/a'' ''/m/a'' cold world_locked)))
     = [''/m/a/x'']"
  by code_simp

text \<open>
  C7. Claim: a directive marker or the state record among the entries of a processed
  directory is classified with the fixed tag set \<open>FREEZEFILE_TAGS\<close>, checked against the
  \<open>freezefile-tags\<close> of the record and tracked in the record. The body of the loop has
  that branch, but both names start with a dot and the guard for hidden files comes
  first. In \<open>world_markers\<close> the listing of \<open>/m/a\<close> holds a marker and the state record:
  after the walk only \<open>x\<close> was sent and only \<open>x\<close> is recorded.
\<close>

theorem marker_and_record_never_classified:
  "listdir world_markers ''/m/a''
     = [(''.freeze.k=v'', False), (''x'', False), (''.frozen'', False)] \<and>
   map fst (calls (snd (apply_tag cfg_ok 10 ''/m/a'' ''/m/a'' cold world_markers)))
     = [''/m/a/x''] \<and>
   affected_files
     (statefile (snd (apply_tag cfg_ok 10 ''/m/a'' ''/m/a'' cold world_markers)) ''/m/a'')
     = JArr [JStr ''x'']"
  by code_simp

text \<open>
  C8. Claim: a directory holding two or more directive markers is selected as a root at
  most once in a pass, and only its first marker is honoured. The selection skips a
  candidate only when it lies below a selected root, so a directory with two markers,
  listed twice among the candidates, is selected twice. In \<open>world_two\<close> one pass applies
  both directives of \<open>/m/a\<close>, deletes both and reports twice.
\<close>

theorem two_markers_selected_twice:
  "map_option (\<lambda>freeze_paths. select_roots (sort_key length (map fst freeze_paths)))
     (rglob_freezefiles 10 world_two ''/m'') = Some [''/m/a'', ''/m/a''] \<and>
   fst (main cfg_ok 10 world_two) = Returned 0 \<and>
   entries (snd (main cfg_ok 10 world_two)) ''/m/a'' = [(''x'', False)] \<and>
   sent (snd (main cfg_ok 10 world_two))
     = [''Freezing path /m/a Failed'', ''Freezing path /m/a Failed''] \<and>
   map (snd \<circ> snd) (calls (snd (main cfg_ok 10 world_two)))
     = [[(''k'', ''1'')], [(''k'', ''2'')]]"
  by code_simp

text \<open>
  C9. Every record that \<open>apply_tag\<close> writes lists each file name at most once, given
  that a directory listing holds each name once: the processing of a directory starts
  from an empty list whenever it gets as far as writing (a record that validates always
  ends the invocation instead). In particular a record that already lists \<open>x\<close>, walked
  again with another tag set, is replaced by one that lists \<open>x\<close> once.
\<close>

theorem persisted_affected_files_distinct:
  assumes "\<forall>p. distinct (map fst (entries w p))"
  shows "(process_dir cfg path rule_path tags L w = Processed L' w' \<longrightarrow>
            affected_once (statefile w' path)) \<and>
         (\<forall>p. statefile (snd (apply_tag cfg n target_path rule_path tags w)) p = statefile w p \<or>
              affected_once (statefile (snd (apply_tag cfg n target_path rule_path tags w)) p))"
proof
  show "process_dir cfg path rule_path tags L w = Processed L' w' \<longrightarrow>
            affected_once (statefile w' path)"
  proof
    assume "process_dir cfg path rule_path tags L w = Processed L' w'"
    then have "scan_dir cfg path rule_path tags
        (AList.update ''affected-files'' (JArr []) BASE_CONFIG) (L\<lparr>state := False\<rparr>) w
        = Processed L' w'"
      by (simp add: process_dir_Processed)
    from scan_dir_fresh_affected [OF this] assms show "affected_once (statefile w' path)"
      by simp
  qed
  show "\<forall>p. statefile (snd (apply_tag cfg n target_path rule_path tags w)) p = statefile w p \<or>
              affected_once (statefile (snd (apply_tag cfg n target_path rule_path tags w)) p)"
    unfolding apply_tag_def using assms by (rule walk_affected_once)
qed

theorem persisted_affected_files_distinct_witness:
  "(\<forall>p. distinct (map fst (entries world_listed p))) \<and>
   affected_files (statefile world_listed ''/m/a'') = JArr [JStr ''x''] \<and>
   affected_once (statefile (snd (apply_tag cfg_ok 10 ''/m/a'' ''/m/a'' warm world_listed)) ''/m/a'') \<and>
   affected_files (statefile (snd (apply_tag cfg_ok 10 ''/m/a'' ''/m/a'' warm world_listed)) ''/m/a'')
     = JArr [JStr ''x'']"
proof -
  have h: "\<forall>p. distinct (map fst (entries world_listed p))"
    by (simp add: world_listed_def mk_world_def)
  have a: "affected_files (statefile world_listed ''/m/a'') = JArr [JStr ''x'']"
    by code_simp
  have ne: "statefile (snd (apply_tag cfg_ok 10 ''/m/a'' ''/m/a'' warm world_listed)) ''/m/a''
      \<noteq> statefile world_listed ''/m/a''"
    by code_simp
  from persisted_affected_files_distinct [OF h, where cfg = cfg_ok and n = 10
      and target_path = "''/m/a''" and rule_path = "''/m/a''" and tags = warm] ne
  have "affected_once (statefile (snd (apply_tag cfg_ok 10 ''/m/a'' ''/m/a'' warm world_listed)) ''/m/a'')"
    by blast
  moreover have "affected_files (statefile (snd (apply_tag cfg_ok 10 ''/m/a'' ''/m/a'' warm world_listed)) ''/m/a'')
     = JArr [JStr ''x'']"
    by code_simp
  ultimately show ?thesis using h a by blast
qed

text \<open>
  C10. \<open>parse_freezefile\<close> raises IndexError on every name with a segment, between the
  prefix and the semicolons, that holds no \<open>=\<close>. When such a name is the first marker of a
  directory popped below the target, the exception leaves the loop; an exception of a
  nested invocation leaves the enclosing one, and one of the outermost invocation leaves
  the driver's loop.
\<close>

theorem parse_freezefile_partial:
  "list_ex (\<lambda>seg. CHR ''='' \<notin> set seg)
     (py_split CHR '';'' (drop (length FREEZEFILE_PREFIX) name)) \<longrightarrow>
   parse_freezefile name = Inl IndexError \<and>
   (directories L = path # rest \<and> path \<noteq> target_path \<and>
    glob_freezefiles w path = name # others \<longrightarrow>
      walk cfg (Suc n) target_path rule_path tags L w = (Raised IndexError, w)) \<and>
   (directories L' = outer # rest' \<and> outer \<noteq> target_path \<and>
    glob_freezefiles w' outer = marker # others' \<and> parse_freezefile marker = Inr parsed \<and>
    apply_tag cfg n outer rule_path parsed w' = (Raised IndexError, w1) \<longrightarrow>
      walk cfg (Suc n) target_path rule_path tags L' w' = (Raised IndexError, w1)) \<and>
   (glob_freezefiles w' tgt_folder = marker # others' \<and> parse_freezefile marker = Inr parsed \<and>
    apply_tag cfg n tgt_folder tgt_folder parsed w' = (Raised IndexError, w1) \<longrightarrow>
      run_roots cfg n (tgt_folder # roots) w' = (Raised IndexError, w1))"
  by (auto simp: parse_freezefile_raises apply_tag_def)

theorem parse_freezefile_partial_witness:
  "parse_freezefile ''.freeze.oops'' = Inl IndexError \<and>
   walk cfg_ok (Suc 0) ''/m/a'' ''/m/a'' cold
     \<lparr>directories = [''/m/a/d''], processed_files = [], failed_files = [], state = False\<rparr>
     world_bad = (Raised IndexError, world_bad) \<and>
   fst (apply_tag cfg_ok 10 ''/m/a'' ''/m/a'' cold world_bad) = Raised IndexError \<and>
   fst (main cfg_ok 10 world_bad) = Raised IndexError"
proof -
  have bad: "list_ex (\<lambda>seg. CHR ''='' \<notin> set seg)
     (py_split CHR '';'' (drop (length FREEZEFILE_PREFIX) ''.freeze.oops''))"
    by (simp add: FREEZEFILE_PREFIX_def)
  have g: "glob_freezefiles world_bad ''/m/a/d'' = ''.freeze.oops'' # []"
    by code_simp
  note t = parse_freezefile_partial [of "''.freeze.oops''"
      "\<lparr>directories = [''/m/a/d''], processed_files = [], failed_files = [], state = False\<rparr>"
      "''/m/a/d''" "[]" "''/m/a''" world_bad "[]" cfg_ok 0 "''/m/a''" cold]
  have "parse_freezefile ''.freeze.oops'' = Inl IndexError"
    using t bad by blast
  moreover have "walk cfg_ok (Suc 0) ''/m/a'' ''/m/a'' cold
     \<lparr>directories = [''/m/a/d''], processed_files = [], failed_files = [], state = False\<rparr>
     world_bad = (Raised IndexError, world_bad)"
    using t bad g by simp
  moreover have "fst (apply_tag cfg_ok 10 ''/m/a'' ''/m/a'' cold world_bad) = Raised IndexError"
    by code_simp
  moreover have "fst (main cfg_ok 10 world_bad) = Raised IndexError"
    by code_simp
  ultimately show ?thesis by simp
qed

end
